theory Spec2Isabelle
  imports Complex_Main
begin

section \<open>Numbers\<close>

text \<open>
  The engine of \<^verbatim>\<open>utils/astronomy.ts\<close> computes on JavaScript numbers. They are
  modelled as mathematical numbers: \<^typ>\<open>int\<close> where the source holds integers
  (calendar fields, array indices) and \<^typ>\<open>real\<close> elsewhere, so rounding of the
  double format is left out. \<^verbatim>\<open>Math.floor\<close>, \<^verbatim>\<open>Math.abs\<close>,
  \<^verbatim>\<open>Math.cos\<close> and \<^verbatim>\<open>Math.sin\<close> are the functions of the same names on the
  reals. What is kept is the behaviour of the operators: the remainder \<^verbatim>\<open>a % b\<close> of JavaScript truncates the quotient towards zero, so its
  result has the sign of the dividend \<^verbatim>\<open>a\<close>.
\<close>

definition js_trunc :: "real \<Rightarrow> int" where
  "js_trunc x = (if 0 \<le> x then \<lfloor>x\<rfloor> else \<lceil>x\<rceil>)"

text \<open>\<^verbatim>\<open>a % b\<close> on numbers.\<close>

definition js_rem :: "real \<Rightarrow> real \<Rightarrow> real" where
  "js_rem a b = a - b * real_of_int (js_trunc (a / b))"

text \<open>\<^verbatim>\<open>a % b\<close> on integers: the same operator, the quotient truncated.\<close>

definition js_irem :: "int \<Rightarrow> int \<Rightarrow> int" where
  "js_irem a b = a - b * js_trunc (real_of_int a / real_of_int b)"

section \<open>Dates\<close>

text \<open>
  A \<^verbatim>\<open>Date\<close> is seen by the engine through six getters only. The calendar date
  is read in the host's local time zone (\<^verbatim>\<open>getFullYear\<close>, \<^verbatim>\<open>getMonth\<close>,
  \<^verbatim>\<open>getDate\<close>), the time of day in UTC (\<^verbatim>\<open>getUTCHours\<close>,
  \<^verbatim>\<open>getUTCMinutes\<close>, \<^verbatim>\<open>getUTCSeconds\<close>). The record holds what the six
  getters return; \<open>getMonth\<close> counts from 0. An invalid \<^verbatim>\<open>Date\<close>, whose getters
  return \<^verbatim>\<open>NaN\<close>, is not a value of the record: the route handler rejects it
  before it calls the engine.
\<close>

record Date =
  getFullYear :: int
  getMonth :: int
  getDate :: int
  getUTCHours :: int
  getUTCMinutes :: int
  getUTCSeconds :: int

section \<open>TimeBase\<close>

text \<open>\<^verbatim>\<open>getJulianDay\<close>, astronomy.ts lines 70-91.\<close>

definition getJulianDay :: "Date \<Rightarrow> real" where
  "getJulianDay date =
    (let year = getFullYear date;
         month = getMonth date + 1;
         day = getDate date;
         a = \<lfloor>real_of_int (14 - month) / 12\<rfloor>;
         y = year + 4800 - a;
         m = month + 12 * a - 3;
         jd = day + \<lfloor>real_of_int (153 * m + 2) / 5\<rfloor> + 365 * y + \<lfloor>real_of_int y / 4\<rfloor>;
         jd = jd - \<lfloor>real_of_int y / 100\<rfloor> + \<lfloor>real_of_int y / 400\<rfloor> - 32045;
         hours = getUTCHours date;
         minutes = getUTCMinutes date;
         seconds = getUTCSeconds date
     in real_of_int jd
        + ((real_of_int hours - 12) / 24 + real_of_int minutes / 1440
           + real_of_int seconds / 86400))"

text \<open>
  The integer part of the computation, lines 76-81, with the quotients written as
  integer division; \<open>month\<close> counts from 1 here. Lemma \<open>getJulianDay_dayNumber\<close>
  relates it to \<open>getJulianDay\<close>.
\<close>

definition dayNumber :: "int \<Rightarrow> int \<Rightarrow> int \<Rightarrow> int" where
  "dayNumber year month day =
    (let a = (14 - month) div 12;
         y = year + 4800 - a;
         m = month + 12 * a - 3
     in day + (153 * m + 2) div 5 + 365 * y + y div 4 - y div 100 + y div 400 - 32045)"

text \<open>\<^verbatim>\<open>getLocalSiderealTime\<close>, astronomy.ts lines 99-115.\<close>

definition getLocalSiderealTime :: "Date \<Rightarrow> real \<Rightarrow> real" where
  "getLocalSiderealTime date longitude =
    (let jd = getJulianDay date;
         t = (jd - 2451545.0) / 36525;
         gst = 280.46061837 + 360.98564736629 * (jd - 2451545.0)
               + 0.000387933 * t * t - t * t * t / 38710000;
         gst = js_rem (js_rem gst 360 + 360) 360;
         lst = gst + longitude;
         lst = js_rem (js_rem lst 360 + 360) 360
     in lst)"

section \<open>MoonPhaseEngine\<close>

text \<open>
  \<^verbatim>\<open>MoonPhaseData\<close>; the fields \<^verbatim>\<open>name\<close>, \<^verbatim>\<open>phase\<close>,
  \<^verbatim>\<open>illumination\<close>, \<^verbatim>\<open>emoji\<close> carry the prefix \<open>mp_\<close>.
\<close>

record MoonPhaseData =
  mp_name :: string
  mp_phase :: real
  mp_illumination :: real
  mp_emoji :: string

text \<open>
  The glyphs are the eight moon emoji U+1F311 .. U+1F318, written here as their four
  UTF-8 bytes.
\<close>

definition moon_glyph :: "nat \<Rightarrow> string" where
  "moon_glyph k = [CHR 0xF0, CHR 0x9F, CHR 0x8C, char_of (0x91 + k)]"

text \<open>\<^verbatim>\<open>getMoonPhase\<close>, astronomy.ts lines 122-169.\<close>

definition lunarCycle :: real where
  "lunarCycle = 29.53059"

definition newMoonRef :: real where
  "newMoonRef = 2451550.1"

definition phaseNameEmoji :: "real \<Rightarrow> string \<times> string" where
  "phaseNameEmoji phase =
    (if phase < 0.025 \<or> phase \<ge> 0.975 then (''New Moon'', moon_glyph 0)
     else if phase < 0.225 then (''Waxing Crescent'', moon_glyph 1)
     else if phase < 0.275 then (''First Quarter'', moon_glyph 2)
     else if phase < 0.475 then (''Waxing Gibbous'', moon_glyph 3)
     else if phase < 0.525 then (''Full Moon'', moon_glyph 4)
     else if phase < 0.725 then (''Waning Gibbous'', moon_glyph 5)
     else if phase < 0.775 then (''Last Quarter'', moon_glyph 6)
     else (''Waning Crescent'', moon_glyph 7))"

definition getMoonPhase :: "Date \<Rightarrow> MoonPhaseData" where
  "getMoonPhase date =
    (let jd = getJulianDay date;
         daysFromNewMoon = js_rem (jd - newMoonRef) lunarCycle;
         phase = daysFromNewMoon / lunarCycle;
         illumination = 0.5 * (1 - cos (2 * pi * phase));
         (name, emoji) = phaseNameEmoji phase
     in \<lparr> mp_name = name, mp_phase = phase, mp_illumination = illumination,
          mp_emoji = emoji \<rparr>)"

section \<open>ConstellationVisibility\<close>

text \<open>
  Reading an array at an index: an element inside the bounds, \<^verbatim>\<open>undefined\<close>
  (here \<open>None\<close>) outside them, as JavaScript does; no exception is raised.
\<close>

definition js_nth :: "'a list \<Rightarrow> int \<Rightarrow> 'a option" where
  "js_nth xs i = (if 0 \<le> i \<and> i < int (length xs) then Some (xs ! nat i) else None)"

datatype season = winter | spring | summer | fall

text \<open>The two \<^verbatim>\<open>if\<close> chains of lines 190-211; \<open>month\<close> counts from 0.\<close>

definition seasonOf :: "int \<Rightarrow> int \<Rightarrow> bool \<Rightarrow> season" where
  "seasonOf month day isNorthernHemisphere =
    (if isNorthernHemisphere then
       (if (month = 11 \<and> day \<ge> 21) \<or> month < 2 \<or> (month = 2 \<and> day < 20) then winter
        else if (month = 2 \<and> day \<ge> 20) \<or> month < 5 \<or> (month = 5 \<and> day < 21) then spring
        else if (month = 5 \<and> day \<ge> 21) \<or> month < 8 \<or> (month = 8 \<and> day < 23) then summer
        else fall)
     else
       (if (month = 11 \<and> day \<ge> 21) \<or> month < 2 \<or> (month = 2 \<and> day < 20) then summer
        else if (month = 2 \<and> day \<ge> 20) \<or> month < 5 \<or> (month = 5 \<and> day < 21) then fall
        else if (month = 5 \<and> day \<ge> 21) \<or> month < 8 \<or> (month = 8 \<and> day < 23) then winter
        else spring))"

text \<open>The table \<^verbatim>\<open>constellationsBySeason\<close>: name and right ascension in hours.\<close>

fun constellationsBySeason :: "season \<Rightarrow> (string \<times> real) list" where
  "constellationsBySeason winter =
    [(''Orion'', 5.5), (''Canis Major'', 7), (''Canis Minor'', 8), (''Gemini'', 7),
     (''Taurus'', 4.5), (''Auriga'', 6), (''Perseus'', 3), (''Eridanus'', 3.5),
     (''Lepus'', 6)]"
| "constellationsBySeason spring =
    [(''Leo'', 11), (''Virgo'', 13), (''Ursa Major'', 11), (''Bootes'', 15),
     (''Corona Borealis'', 16), (''Canes Venatici'', 13), (''Coma Berenices'', 13),
     (''Hydra'', 12)]"
| "constellationsBySeason summer =
    [(''Cygnus'', 20.5), (''Lyra'', 19), (''Aquila'', 20), (''Hercules'', 17),
     (''Scorpius'', 17), (''Sagittarius'', 19), (''Ophiuchus'', 17.5), (''Libra'', 15.5)]"
| "constellationsBySeason fall =
    [(''Pegasus'', 22), (''Andromeda'', 1), (''Pisces'', 1), (''Aquarius'', 23),
     (''Capricornus'', 21), (''Cetus'', 2), (''Phoenix'', 1), (''Grus'', 22.5)]"

definition circumNorth :: "string list" where
  "circumNorth = [''Ursa Minor'', ''Cassiopeia'', ''Cepheus'', ''Draco'', ''Camelopardalis'']"

definition circumSouth :: "string list" where
  "circumSouth = [''Crux'', ''Centaurus'', ''Carina'', ''Octans'', ''Tucana'']"

definition common :: "string list" where
  "common = [''Orion'', ''Ursa Major'', ''Cassiopeia'', ''Crux'', ''Scorpius'']"

text \<open>
  The distance in hours between a right ascension and the sidereal time, wrapped at 24 h
  (lines 270-271, and again 279-283 in the comparator).
\<close>

definition hourDiff :: "real \<Rightarrow> real \<Rightarrow> real" where
  "hourDiff ra lstHours =
    (let hourDiff = \<bar>ra - lstHours\<bar>
     in if hourDiff > 12 then 24 - hourDiff else hourDiff)"

text \<open>
  The loop \<^verbatim>\<open>for (const constellation of common)\<close>, lines 309-314. The array holds
  names or \<^verbatim>\<open>undefined\<close>.
\<close>

fun padCommon :: "string option list \<Rightarrow> string list \<Rightarrow> string option list" where
  "padCommon result [] = result"
| "padCommon result (constellation # rest) =
    (if Some constellation \<notin> set result
     then (let result = result @ [Some constellation]
           in if length result \<ge> 5 then result else padCommon result rest)
     else padCommon result rest)"

text \<open>
  \<^verbatim>\<open>getVisibleConstellations\<close>, astronomy.ts lines 178-319. \<^verbatim>\<open>Array.sort\<close> is
  stable, as \<open>sort_key\<close> is; the comparator orders by \<open>hourDiff\<close>.
\<close>

definition getVisibleConstellations :: "Date \<Rightarrow> real \<Rightarrow> real \<Rightarrow> string option list" where
  "getVisibleConstellations date latitude longitude =
    (let month = getMonth date;
         day = getDate date;
         lst = getLocalSiderealTime date longitude;
         isNorthernHemisphere = (latitude \<ge> 0);
         season = seasonOf month day isNorthernHemisphere;
         lstHours = lst / 15;
         visibleSeasonalRaw =
           filter (\<lambda>c. hourDiff (snd c) lstHours < 6) (constellationsBySeason season);
         visibleSeasonal =
           map (\<lambda>c. Some (fst c))
             (take 5 (sort_key (\<lambda>c. hourDiff (snd c) lstHours) visibleSeasonalRaw));
         circumpolar = (if isNorthernHemisphere then circumNorth else circumSouth);
         dateNum = getDate date + getMonth date * 100 + getFullYear date * 10000;
         circ1Index = js_irem dateNum (int (length circumpolar));
         circ2Index = js_irem (dateNum + 2) (int (length circumpolar));
         selectedCircumpolar = [js_nth circumpolar circ1Index];
         selectedCircumpolar =
           (if length visibleSeasonal < 4
            then selectedCircumpolar @ [js_nth circumpolar circ2Index]
            else selectedCircumpolar);
         result = visibleSeasonal @ selectedCircumpolar;
         result = (if length result < 4 then padCommon result common else result)
     in take 5 result)"

section \<open>PlanetVisibility\<close>

text \<open>
  \<^verbatim>\<open>PlanetData\<close>; the fields \<^verbatim>\<open>name\<close>, \<^verbatim>\<open>description\<close>,
  \<^verbatim>\<open>magnitude\<close>, \<^verbatim>\<open>isVisible\<close> carry the prefix \<open>pl_\<close>.
\<close>

record PlanetData =
  pl_name :: string
  pl_description :: string
  pl_magnitude :: real
  pl_isVisible :: bool

text \<open>
  The object literal \<^verbatim>\<open>periods\<close>; \<^verbatim>\<open>Object.entries\<close> lists its keys in the
  order they are written.
\<close>

definition periods :: "(string \<times> real) list" where
  "periods =
    [(''Mercury'', 88), (''Venus'', 225), (''Mars'', 687), (''Jupiter'', 4333),
     (''Saturn'', 10759)]"

definition j2000 :: real where
  "j2000 = 2451545.0"

text \<open>
  The \<^verbatim>\<open>switch (name)\<close> of lines 359-434: description, visibility and magnitude
  of one planet at an orbital phase. A name with no \<^verbatim>\<open>case\<close> keeps the initial
  values of the three variables.
\<close>

definition planetSwitch :: "string \<Rightarrow> real \<Rightarrow> string \<times> bool \<times> real" where
  "planetSwitch name phase =
    (if name = ''Mercury'' then
       (let magnitude = - 1.9 + 7.6 * \<bar>phase - 0.5\<bar> * 2 in
        if phase < 0.25 \<or> phase > 0.75
        then (''Low on eastern horizon before sunrise'', phase > 0.8 \<or> phase < 0.2, magnitude)
        else (''Low on western horizon after sunset'', phase > 0.3 \<and> phase < 0.7, magnitude))
     else if name = ''Venus'' then
       (let magnitude = - 4.6 + 1.6 * \<bar>phase - 0.5\<bar> * 2 in
        if phase < 0.25 \<or> phase > 0.75
        then (''Morning star (eastern horizon before sunrise)'', True, magnitude)
        else (''Evening star (western horizon after sunset)'', True, magnitude))
     else if name = ''Mars'' then
       (let magnitude = - 2.9 + 4.7 * \<bar>phase - 0.5\<bar> * 2 in
        if phase < 0.25 then (''Rising in the east'', True, magnitude)
        else if phase < 0.5 then (''High in the southern sky'', True, magnitude)
        else if phase < 0.75 then (''Setting in the west'', True, magnitude)
        else (''Below horizon (not visible)'', False, magnitude))
     else if name = ''Jupiter'' then
       (let magnitude = - 2.9 + 0.9 * \<bar>phase - 0.5\<bar> * 2 in
        if phase < 0.33 then (''Rising in the east'', True, magnitude)
        else if phase < 0.66 then (''High in the southern sky'', True, magnitude)
        else (''Setting in the west'', True, magnitude))
     else if name = ''Saturn'' then
       (let magnitude = - 0.2 + 1.4 * \<bar>phase - 0.5\<bar> * 2 in
        if phase < 0.25 then (''Rising in the east'', True, magnitude)
        else if phase < 0.5 then (''High in the southern sky'', True, magnitude)
        else if phase < 0.75 then (''Setting in the west'', True, magnitude)
        else (''Below horizon (not visible)'', False, magnitude))
     else ([], False, 0))"

text \<open>
  The callback of \<^verbatim>\<open>Object.entries(periods).forEach\<close>, lines 349-456: the array
  \<^verbatim>\<open>result\<close> before the call and after it.
\<close>

definition planetEntry :: "Date \<Rightarrow> real \<Rightarrow> PlanetData list \<Rightarrow> string \<times> real \<Rightarrow> PlanetData list" where
  "planetEntry date jd result = (\<lambda>(name, period).
    let phase = js_rem (jd - j2000) period / period;
        (description, isVisible, magnitude) = planetSwitch name phase;
        month = getMonth date;
        day = getDate date;
        dateNum = day + month * 31;
        (isVisible, description) =
          (if js_irem dateNum 11 = 0 \<and> name \<noteq> ''Jupiter''
           then (False, ''Below horizon (not visible)'')
           else (isVisible, description))
    in if isVisible
       then result @ [\<lparr> pl_name = name, pl_description = description,
                        pl_magnitude = magnitude, pl_isVisible = isVisible \<rparr>]
       else result)"

definition backup :: "PlanetData list" where
  "backup =
    [\<lparr> pl_name = ''Venus'', pl_description = ''Evening star (western horizon after sunset)'',
       pl_magnitude = - 4.0, pl_isVisible = True \<rparr>,
     \<lparr> pl_name = ''Jupiter'', pl_description = ''High in the southern sky'',
       pl_magnitude = - 2.5, pl_isVisible = True \<rparr>]"

text \<open>
  The loop \<^verbatim>\<open>for (const planet of backup)\<close>, lines 475-480; the \<^verbatim>\<open>break\<close> is
  tested after a push only.
\<close>

fun addBackup :: "PlanetData list \<Rightarrow> PlanetData list \<Rightarrow> PlanetData list" where
  "addBackup result [] = result"
| "addBackup result (planet # rest) =
    (if \<not> list_ex (\<lambda>p. pl_name p = pl_name planet) result
     then (let result = result @ [planet]
           in if length result \<ge> 2 then result else addBackup result rest)
     else addBackup result rest)"

text \<open>\<^verbatim>\<open>getVisiblePlanets\<close>, astronomy.ts lines 328-484.\<close>

definition getVisiblePlanets :: "Date \<Rightarrow> real \<Rightarrow> real \<Rightarrow> PlanetData list" where
  "getVisiblePlanets date latitude longitude =
    (let jd = getJulianDay date;
         result = foldl (planetEntry date jd) [] periods
     in if length result < 2 then addBackup result backup else result)"

section \<open>VectorRenderer\<close>

text \<open>
  \<^verbatim>\<open>generateMoonPhaseSVG\<close> returns markup built from template strings. The model
  keeps the structure of that markup instead of its characters: the \<^verbatim>\<open>svg\<close>
  element with its size and view box, and its children in order, a \<^verbatim>\<open>circle\<close>
  and at most one \<^verbatim>\<open>path\<close>, each with the attributes the template writes. The
  numbers stay numbers; how JavaScript prints them is left out.
\<close>

datatype path_cmd =
  MoveTo real real
  | ArcTo real real nat nat nat real real
  | LineTo real real
  | ClosePath

datatype svg_elem =
  Circle real real real string string real
  | Path "path_cmd list" string

record SVG =
  svg_width :: real
  svg_height :: real
  svg_viewBox :: "real \<times> real \<times> real \<times> real"
  svg_children :: "svg_elem list"

text \<open>The fill colour of an element.\<close>

fun fill :: "svg_elem \<Rightarrow> string" where
  "fill (Circle cx cy r f stroke stroke_width) = f"
| "fill (Path d f) = f"

text \<open>\<^verbatim>\<open>generateMoonPhaseSVG\<close>, astronomy.ts lines 491-600.\<close>

definition generateMoonPhaseSVG :: "real \<Rightarrow> SVG" where
  "generateMoonPhaseSVG phase0 =
    (let phase = js_rem (js_rem phase0 1 + 1) 1;
         width = 100;
         height = 100;
         cx = width / 2;
         cy = height / 2;
         r = 40;
         svg = (\<lambda>children. \<lparr> svg_width = width, svg_height = height,
                   svg_viewBox = (0, 0, width, height), svg_children = children \<rparr>);
         disc = (\<lambda>f. Circle cx cy r f ''#444'' 1)
     in if \<bar>phase\<bar> < 0.01 \<or> \<bar>phase - 1\<bar> < 0.01 then svg [disc ''black'']
        else if \<bar>phase - 0.5\<bar> < 0.01 then svg [disc ''white'']
        else
          (let isWaxing = (phase < 0.5)
           in if \<bar>phase - 0.25\<bar> < 0.01 then
                svg [disc ''black'',
                     Path [MoveTo cx (cy - r), ArcTo r r 0 0 1 cx (cy + r),
                           LineTo cx (cy - r), ClosePath] ''white'']
              else if \<bar>phase - 0.75\<bar> < 0.01 then
                svg [disc ''black'',
                     Path [MoveTo cx (cy - r), ArcTo r r 0 0 0 cx (cy + r),
                           LineTo cx (cy - r), ClosePath] ''white'']
              else
                (let phaseAngle = phase * 360;
                     xOffset = r * cos (phaseAngle * pi / 180);
                     curveFactor = \<bar>sin (phaseAngle * pi / 180)\<bar> * r
                 in if isWaxing then
                      (if phase < 0.25 then
                         svg [disc ''black'',
                              Path [MoveTo cx (cy - r), ArcTo curveFactor r 0 0 1 cx (cy + r),
                                    ArcTo r r 0 0 0 cx (cy - r)] ''white'']
                       else
                         svg [disc ''white'',
                              Path [MoveTo cx (cy - r), ArcTo curveFactor r 0 0 0 cx (cy + r),
                                    ArcTo r r 0 0 1 cx (cy - r)] ''black''])
                    else
                      (if phase < 0.75 then
                         svg [disc ''white'',
                              Path [MoveTo cx (cy - r), ArcTo curveFactor r 0 0 1 cx (cy + r),
                                    ArcTo r r 0 0 0 cx (cy - r)] ''black'']
                       else
                         svg [disc ''black'',
                              Path [MoveTo cx (cy - r), ArcTo curveFactor r 0 0 0 cx (cy + r),
                                    ArcTo r r 0 0 1 cx (cy - r)] ''white'']))))"

section \<open>The response of the star-map route\<close>

text \<open>
  The route handler (\<^verbatim>\<open>pages/api/astronomy/star-map\<close>) validates the request, calls
  the engine and assembles \<^verbatim>\<open>responseData\<close>. The model starts after validation, at
  \<^verbatim>\<open>dateObj\<close>, \<^verbatim>\<open>lat\<close>, \<^verbatim>\<open>lng\<close> and \<^verbatim>\<open>sanitizedMoonColor\<close>, and
  covers the members of the response computed by the functions above:
  \<^verbatim>\<open>moonPhase\<close>, \<^verbatim>\<open>constellations\<close> and \<^verbatim>\<open>planets\<close>. The members
  \<^verbatim>\<open>date\<close>, \<^verbatim>\<open>formattedDate\<close>, \<^verbatim>\<open>location\<close> and \<^verbatim>\<open>starMapSvg\<close>
  are not modelled.
\<close>

record MoonPhaseResponse =
  rp_name :: string
  rp_illumination :: real
  rp_emoji :: string
  rp_svgPath :: SVG

record PlanetResponse =
  rp_planet_name :: string
  rp_position :: string
  rp_magnitude :: real
  rp_isVisible :: bool

record StarMapResponse =
  rp_moonPhase :: MoonPhaseResponse
  rp_constellations :: "string option list"
  rp_planets :: "PlanetResponse list"

text \<open>\<^verbatim>\<open>toLowerCase\<close> on the letters A to Z.\<close>

definition js_toLowerCase :: "string \<Rightarrow> string" where
  "js_toLowerCase s =
    map (\<lambda>c. if 65 \<le> (of_char c :: nat) \<and> (of_char c :: nat) \<le> 90
             then char_of ((of_char c :: nat) + 32) else c) s"

text \<open>
  \<^verbatim>\<open>moonPhaseSvg.replace(/fill="white"/g, ...)\<close>: every fill attribute that is
  \<^verbatim>\<open>white\<close> takes the colour.
\<close>

fun replaceFillWhite :: "string \<Rightarrow> svg_elem \<Rightarrow> svg_elem" where
  "replaceFillWhite colour (Circle cx cy r f stroke stroke_width) =
    Circle cx cy r (if f = ''white'' then colour else f) stroke stroke_width"
| "replaceFillWhite colour (Path d f) = Path d (if f = ''white'' then colour else f)"

text \<open>The handler from line 140 to line 182.\<close>

definition responseData :: "Date \<Rightarrow> real \<Rightarrow> real \<Rightarrow> string \<Rightarrow> StarMapResponse" where
  "responseData dateObj lat lng sanitizedMoonColor =
    (let moonPhaseData = getMoonPhase dateObj;
         visibleConstellations = getVisibleConstellations dateObj lat lng;
         visiblePlanetsData = getVisiblePlanets dateObj lat lng;
         planetPositions =
           map (\<lambda>planet. \<lparr> rp_planet_name = pl_name planet, rp_position = pl_description planet,
                            rp_magnitude = pl_magnitude planet,
                            rp_isVisible = pl_isVisible planet \<rparr>) visiblePlanetsData;
         moonPhaseSvg = generateMoonPhaseSVG (mp_phase moonPhaseData);
         moonPhaseSvg =
           (if sanitizedMoonColor \<noteq> [] \<and> js_toLowerCase sanitizedMoonColor \<noteq> ''#ffffff''
            then moonPhaseSvg\<lparr> svg_children :=
                   map (replaceFillWhite sanitizedMoonColor) (svg_children moonPhaseSvg) \<rparr>
            else moonPhaseSvg)
     in \<lparr> rp_moonPhase =
            \<lparr> rp_name = mp_name moonPhaseData,
              rp_illumination = mp_illumination moonPhaseData,
              rp_emoji = mp_emoji moonPhaseData,
              rp_svgPath = moonPhaseSvg \<rparr>,
          rp_constellations = visibleConstellations,
          rp_planets = planetPositions \<rparr>)"

section \<open>The host's dates\<close>

text \<open>
  The getters are the host's, not the repository's. To name concrete \<^verbatim>\<open>Date\<close>
  objects, \<open>Date_of tz t\<close> is the date whose time value is \<open>t\<close> milliseconds since
  1970-01-01T00:00:00Z, read on a host whose local time is \<open>tz\<close> minutes ahead of
  UTC. The local calendar date is the proleptic Gregorian date of the local day number
  (\<open>civil_from_days\<close>: days are counted from 0000-03-01 in cycles of 400 years, 100
  years, 4 years and 1 year, then cut into months starting with March); the UTC time
  of day is the time value modulo one day.
\<close>

definition civil_from_days :: "int \<Rightarrow> int \<times> int \<times> int" where
  "civil_from_days days =
    (let z = days + 719468;
         era = z div 146097;
         doe = z mod 146097;
         c = min (doe div 36524) 3;
         doc = doe - 36524 * c;
         q = doc div 1461;
         doq = doc mod 1461;
         yq = min (doq div 365) 3;
         doy = doq - 365 * yq;
         mp = (5 * doy + 2) div 153;
         d = doy - (153 * mp + 2) div 5 + 1;
         m = (if mp < 10 then mp + 3 else mp - 9);
         y = 400 * era + 100 * c + 4 * q + yq + (if m \<le> 2 then 1 else 0)
     in (y, m - 1, d))"

definition Date_of :: "int \<Rightarrow> int \<Rightarrow> Date" where
  "Date_of tz t =
    (let (y, m, d) = civil_from_days ((t + tz * 60000) div 86400000)
     in \<lparr> getFullYear = y, getMonth = m, getDate = d,
          getUTCHours = (t div 3600000) mod 24,
          getUTCMinutes = (t div 60000) mod 60,
          getUTCSeconds = (t div 1000) mod 60 \<rparr>)"

section \<open>The phase table of the specification\<close>

text \<open>
  The eight named phases with their intervals of the phase fraction, as the
  specification lists them; each interval \<open>(lo, hi)\<close> is half open, \<open>lo \<le> p < hi\<close>.
  New Moon has two pieces. This table is written from the specification, not from the
  code, and is compared with the code's chain of comparisons (\<open>phaseNameEmoji\<close>).
\<close>

definition phaseIntervals :: "(string \<times> (real \<times> real) list) list" where
  "phaseIntervals =
    [(''New Moon'', [(0, 0.025), (0.975, 1)]),
     (''Waxing Crescent'', [(0.025, 0.225)]),
     (''First Quarter'', [(0.225, 0.275)]),
     (''Waxing Gibbous'', [(0.275, 0.475)]),
     (''Full Moon'', [(0.475, 0.525)]),
     (''Waning Gibbous'', [(0.525, 0.725)]),
     (''Last Quarter'', [(0.725, 0.775)]),
     (''Waning Crescent'', [(0.775, 0.975)])]"

text \<open>
  The names of the intervals of the table that contain \<open>p\<close>, in the order of the table,
  one entry for every interval that contains it.
\<close>

definition phaseNamesAt :: "real \<Rightarrow> string list" where
  "phaseNamesAt p =
    concat (map (\<lambda>(n, ivs). map (\<lambda>iv. n) (filter (\<lambda>(lo, hi). lo \<le> p \<and> p < hi) ivs))
              phaseIntervals)"

section \<open>Remainders\<close>

lemma js_trunc_bounds:
  "0 \<le> x \<Longrightarrow> real_of_int (js_trunc x) \<le> x \<and> x < real_of_int (js_trunc x) + 1"
  "x \<le> 0 \<Longrightarrow> x \<le> real_of_int (js_trunc x) \<and> real_of_int (js_trunc x) - 1 < x"
  unfolding js_trunc_def by (auto, linarith+)

lemma js_rem_nonneg:
  assumes "0 < b" and "0 \<le> a"
  shows "0 \<le> js_rem a b" and "js_rem a b < b"
proof -
  have q: "0 \<le> a / b" using assms by simp
  let ?k = "real_of_int (js_trunc (a / b))"
  from js_trunc_bounds(1)[OF q] have k: "?k \<le> a / b" "a / b < ?k + 1" by simp_all
  from k(1) assms(1) have "b * ?k \<le> a" by (simp add: pos_le_divide_eq mult.commute)
  then show "0 \<le> js_rem a b" by (simp add: js_rem_def)
  from k(2) assms(1) have "a < b * (?k + 1)" by (simp add: pos_divide_less_eq mult.commute)
  then show "js_rem a b < b" by (simp add: js_rem_def algebra_simps)
qed

lemma js_rem_nonpos:
  assumes "0 < b" and "a \<le> 0"
  shows "js_rem a b \<le> 0" and "- b < js_rem a b"
proof -
  have q: "a / b \<le> 0" using assms by (simp add: divide_nonpos_pos)
  let ?k = "real_of_int (js_trunc (a / b))"
  from js_trunc_bounds(2)[OF q] have k: "a / b \<le> ?k" "?k - 1 < a / b" by simp_all
  from k(1) assms(1) have "a \<le> b * ?k" by (simp add: pos_divide_le_eq mult.commute)
  then show "js_rem a b \<le> 0" by (simp add: js_rem_def)
  from k(2) assms(1) have "b * (?k - 1) < a" by (simp add: pos_less_divide_eq mult.commute)
  then show "- b < js_rem a b" by (simp add: js_rem_def algebra_simps)
qed

lemma js_rem_abs_less:
  assumes "0 < b"
  shows "- b < js_rem a b" and "js_rem a b < b"
proof -
  show "- b < js_rem a b"
  proof (cases "0 \<le> a")
    case True
    with js_rem_nonneg(1)[OF assms True] assms show ?thesis by linarith
  next
    case False
    then have "a \<le> 0" by simp
    from js_rem_nonpos(2)[OF assms this] show ?thesis .
  qed
  show "js_rem a b < b"
  proof (cases "0 \<le> a")
    case True
    from js_rem_nonneg(2)[OF assms True] show ?thesis .
  next
    case False
    then have "a \<le> 0" by simp
    from js_rem_nonpos(1)[OF assms this] assms show ?thesis by linarith
  qed
qed

text \<open>The idiom \<^verbatim>\<open>((x % n) + n) % n\<close> lands in \<open>[0, n)\<close>.\<close>

lemma js_rem_normalised:
  assumes "0 < n"
  shows "0 \<le> js_rem (js_rem x n + n) n" and "js_rem (js_rem x n + n) n < n"
proof -
  from js_rem_abs_less(1)[OF assms, of x] have "0 \<le> js_rem x n + n" by linarith
  from js_rem_nonneg[OF assms this]
  show "0 \<le> js_rem (js_rem x n + n) n" and "js_rem (js_rem x n + n) n < n" .
qed

section \<open>Local sidereal time\<close>

lemma js_rem_small:
  assumes "0 \<le> a" and "a < b"
  shows "js_rem a b = a"
proof -
  have "0 \<le> a / b" and "a / b < 1" using assms by simp_all
  then have "js_trunc (a / b) = 0" by (simp add: js_trunc_def floor_eq_iff)
  then show ?thesis by (simp add: js_rem_def)
qed

lemma js_rem_small_plus:
  assumes "0 \<le> a" and "a < b"
  shows "js_rem (a + b) b = a"
proof -
  have b: "0 < b" using assms by simp
  then have "(a + b) / b = a / b + 1" by (simp add: add_divide_distrib)
  moreover have "0 \<le> a / b" and "a / b < 1" using assms by simp_all
  ultimately have "js_trunc ((a + b) / b) = 1" by (simp add: js_trunc_def floor_eq_iff)
  then show ?thesis by (simp add: js_rem_def)
qed

lemma js_rem_normalised_idem:
  assumes "0 < n"
  shows "js_rem (js_rem (js_rem (js_rem x n + n) n) n + n) n = js_rem (js_rem x n + n) n"
proof -
  let ?g = "js_rem (js_rem x n + n) n"
  from js_rem_normalised[OF assms, of x] have g: "0 \<le> ?g" "?g < n" .
  from js_rem_small[OF g] js_rem_small_plus[OF g] show ?thesis by simp
qed

text \<open>
  The sidereal time at longitude 0 is the Greenwich sidereal time \<^verbatim>\<open>gst\<close> of the
  function, already normalised.
\<close>

lemma getLocalSiderealTime_greenwich:
  "getLocalSiderealTime date longitude
     = js_rem (js_rem (getLocalSiderealTime date 0 + longitude) 360 + 360) 360"
  unfolding getLocalSiderealTime_def Let_def
  using js_rem_normalised_idem[of 360] by simp

text \<open>
  C8. For every date and every longitude, \<open>getLocalSiderealTime\<close> returns a value in
  \<open>[0, 360)\<close>: the longitude is added to the Greenwich sidereal time and the sum is
  normalised by \<^verbatim>\<open>((lst % 360) + 360) % 360\<close>, which is non-negative whatever the
  sign of the sum.
\<close>

theorem getLocalSiderealTime_range:
  "0 \<le> getLocalSiderealTime date longitude \<and> getLocalSiderealTime date longitude < 360
   \<and> getLocalSiderealTime date longitude
       = js_rem (js_rem (getLocalSiderealTime date 0 + longitude) 360 + 360) 360"
proof -
  have "0 \<le> getLocalSiderealTime date longitude"
    and "getLocalSiderealTime date longitude < 360"
    unfolding getLocalSiderealTime_def Let_def
    using js_rem_normalised[of 360] by simp_all
  with getLocalSiderealTime_greenwich[of date longitude] show ?thesis by blast
qed

section \<open>Moon phase\<close>

lemma getMoonPhase_phase:
  "mp_phase (getMoonPhase d) = js_rem (getJulianDay d - newMoonRef) lunarCycle / lunarCycle"
  by (simp add: getMoonPhase_def Let_def split: prod.splits)

lemma getMoonPhase_name:
  "mp_name (getMoonPhase d) = fst (phaseNameEmoji (mp_phase (getMoonPhase d)))"
  by (simp add: getMoonPhase_def Let_def split: prod.splits)

lemma getMoonPhase_illumination:
  "mp_illumination (getMoonPhase d) = 0.5 * (1 - cos (2 * pi * mp_phase (getMoonPhase d)))"
  by (simp add: getMoonPhase_def Let_def split: prod.splits)

lemma getMoonPhase_illumination_bounds:
  "0 \<le> mp_illumination (getMoonPhase d)" "mp_illumination (getMoonPhase d) \<le> 1"
proof -
  let ?c = "cos (2 * pi * mp_phase (getMoonPhase d))"
  have "- 1 \<le> ?c" and "?c \<le> 1" by simp_all
  then show "0 \<le> mp_illumination (getMoonPhase d)" "mp_illumination (getMoonPhase d) \<le> 1"
    unfolding getMoonPhase_illumination by simp_all
qed

text \<open>
  C7. For every date, the illumination returned by \<open>getMoonPhase\<close> lies in \<open>[0, 1]\<close>
  and is \<open>0.5 * (1 - cos (2 * pi * phase))\<close> for the phase returned by the same call.
\<close>

theorem getMoonPhase_illumination_range:
  "0 \<le> mp_illumination (getMoonPhase d) \<and> mp_illumination (getMoonPhase d) \<le> 1
   \<and> mp_illumination (getMoonPhase d)
       = 0.5 * (1 - cos (2 * pi * mp_phase (getMoonPhase d)))"
  using getMoonPhase_illumination_bounds[of d] getMoonPhase_illumination[of d] by blast

text \<open>
  C6. Over \<open>[0, 1)\<close> the eight intervals of the specification's phase table are
  exhaustive and do not overlap: exactly one interval of the table contains a phase
  fraction \<open>p\<close>, and its name is the name the code's comparisons give to \<open>p\<close>;
  \<open>getMoonPhase\<close> names the phase it returns by these comparisons.
\<close>

theorem phase_classification:
  assumes "0 \<le> p" and "p < 1"
  shows "phaseNamesAt p = [fst (phaseNameEmoji p)]
     \<and> mp_name (getMoonPhase d) = fst (phaseNameEmoji (mp_phase (getMoonPhase d)))"
  using assms
  by (simp add: phaseNamesAt_def phaseIntervals_def phaseNameEmoji_def getMoonPhase_name)

theorem phase_classification_witness:
  "(0::real) \<le> 1 / 2 \<and> (1 / 2 :: real) < 1
   \<and> phaseNamesAt (1 / 2) = [''Full Moon'']
   \<and> mp_name (getMoonPhase (Date_of 0 0))
       = fst (phaseNameEmoji (mp_phase (getMoonPhase (Date_of 0 0))))"
proof -
  have "fst (phaseNameEmoji (1 / 2)) = ''Full Moon''"
    by (simp add: phaseNameEmoji_def)
  with phase_classification[of "1 / 2" "Date_of 0 0"] show ?thesis by simp
qed

subsection \<open>Dates before the reference new moon\<close>

text \<open>
  The remainder of line 128 is not normalised. From the reference new moon on, the
  phase is in \<open>[0, 1)\<close>; before it, the phase is in \<open>(-1, 0]\<close>.
\<close>

lemma getMoonPhase_phase_after:
  assumes "newMoonRef \<le> getJulianDay d"
  shows "0 \<le> mp_phase (getMoonPhase d)" and "mp_phase (getMoonPhase d) < 1"
proof -
  have c: "0 < lunarCycle" by (simp add: lunarCycle_def)
  from assms have a: "0 \<le> getJulianDay d - newMoonRef" by simp
  from js_rem_nonneg[OF c a] c
  show "0 \<le> mp_phase (getMoonPhase d)" and "mp_phase (getMoonPhase d) < 1"
    unfolding getMoonPhase_phase by simp_all
qed

lemma getMoonPhase_phase_before:
  assumes "getJulianDay d \<le> newMoonRef"
  shows "mp_phase (getMoonPhase d) \<le> 0" and "- 1 < mp_phase (getMoonPhase d)"
proof -
  have c: "0 < lunarCycle" by (simp add: lunarCycle_def)
  from assms have a: "getJulianDay d - newMoonRef \<le> 0" by simp
  from js_rem_nonpos[OF c a] c
  show "mp_phase (getMoonPhase d) \<le> 0" and "- 1 < mp_phase (getMoonPhase d)"
    unfolding getMoonPhase_phase by (simp_all add: divide_le_0_iff pos_less_divide_eq)
qed

lemma cos_neg_between:
  assumes "1 / 4 < p" and "p < 3 / 4"
  shows "cos (2 * pi * p) < 0"
proof -
  let ?x = "2 * pi * p - pi"
  have "- (pi / 2) < ?x" using assms(1) pi_gt_zero by (simp add: field_simps)
  moreover have "?x < pi / 2" using assms(2) pi_gt_zero by (simp add: field_simps)
  ultimately have "0 < cos ?x" by (rule cos_gt_zero_pi)
  moreover have "cos ?x = - cos (2 * pi * p)" by (rule cos_minus_pi)
  ultimately show ?thesis by linarith
qed

text \<open>
  The date 1999-12-22T00:00:00Z on a host in UTC: what the route handler builds from
  the request date \<^verbatim>\<open>1999-12-22\<close>. Its Julian Day is 2451534.5, 15.6 days before
  the reference new moon (a full moon was observed that day).
\<close>

lemma date_19991222:
  "Date_of 0 945820800000 =
    \<lparr> getFullYear = 1999, getMonth = 11, getDate = 22, getUTCHours = 0,
      getUTCMinutes = 0, getUTCSeconds = 0 \<rparr>"
  by code_simp

lemma julianDay_19991222: "getJulianDay (Date_of 0 945820800000) = 2451534.5"
  by code_simp

lemma phase_19991222:
  "mp_phase (getMoonPhase (Date_of 0 945820800000)) = - (1560000 / 2953059)"
  unfolding getMoonPhase_phase by code_simp

lemma name_19991222: "mp_name (getMoonPhase (Date_of 0 945820800000)) = ''New Moon''"
  unfolding getMoonPhase_name getMoonPhase_phase by code_simp

lemma illumination_19991222: "1 / 2 < mp_illumination (getMoonPhase (Date_of 0 945820800000))"
proof -
  have "cos (2 * pi * (1560000 / 2953059)) < 0"
    by (rule cos_neg_between) simp_all
  moreover have "cos (2 * pi * (- (1560000 / 2953059))) = cos (2 * pi * (1560000 / 2953059))"
    using cos_minus[of "2 * pi * (1560000 / 2953059)"] by simp
  ultimately show ?thesis
    unfolding getMoonPhase_illumination phase_19991222 by simp
qed

text \<open>
  C1, at the date above. The claim is that the phase lies in \<open>[0, 1)\<close> also before the
  reference new moon. For 1999-12-22 the code returns the phase \<open>-1560000/2953059\<close>
  (about -0.528), which is negative; the first comparison of the chain then names it
  New Moon, while the illumination computed from the same phase is above one half.
\<close>

theorem getMoonPhase_phase_negative:
  "mp_phase (getMoonPhase (Date_of 0 945820800000)) = - (1560000 / 2953059)
   \<and> mp_phase (getMoonPhase (Date_of 0 945820800000)) < 0
   \<and> mp_name (getMoonPhase (Date_of 0 945820800000)) = ''New Moon''
   \<and> 1 / 2 < mp_illumination (getMoonPhase (Date_of 0 945820800000))"
  using illumination_19991222 by (simp add: phase_19991222 name_19991222)

section \<open>The response's illumination\<close>

lemma responseData_moonPhase_illumination:
  "rp_illumination (rp_moonPhase (responseData dateObj lat lng sanitizedMoonColor))
     = mp_illumination (getMoonPhase dateObj)"
  by (simp add: responseData_def Let_def)

text \<open>
  C2, as the claim states it, fails: the response's \<^verbatim>\<open>moonPhase.illumination\<close> is
  not 100 times the engine's illumination. For the request date 1999-12-22 with the
  default coordinates and colour, on a host in UTC, the two differ.
\<close>

theorem responseData_illumination_not_percent:
  "rp_illumination
     (rp_moonPhase (responseData (Date_of 0 945820800000) 38.75 (- 77.48) ''#FFFDE7''))
     \<noteq> 100 * mp_illumination (getMoonPhase (Date_of 0 945820800000))"
  unfolding responseData_moonPhase_illumination
  using illumination_19991222 by simp

text \<open>
  C2, amended. For every request that passes validation, the response's
  \<^verbatim>\<open>moonPhase.illumination\<close> is the engine's illumination itself, unscaled, and so
  lies in \<open>[0, 1]\<close>. (The component that displays it multiplies by 100.)
\<close>

theorem responseData_illumination_unscaled:
  "rp_illumination (rp_moonPhase (responseData dateObj lat lng sanitizedMoonColor))
     = mp_illumination (getMoonPhase dateObj)
   \<and> 0 \<le> rp_illumination (rp_moonPhase (responseData dateObj lat lng sanitizedMoonColor))
   \<and> rp_illumination (rp_moonPhase (responseData dateObj lat lng sanitizedMoonColor)) \<le> 1"
  unfolding responseData_moonPhase_illumination
  using getMoonPhase_illumination_bounds[of dateObj] by simp

section \<open>The moon disc at new and full moon\<close>

text \<open>
  C9. For the phase 0 \<open>generateMoonPhaseSVG\<close> returns a graphic that is one disc
  filled black and nothing else; for the phase 0.5, one disc filled white and nothing
  else.
\<close>

theorem generateMoonPhaseSVG_new_full:
  "generateMoonPhaseSVG 0 =
     \<lparr> svg_width = 100, svg_height = 100, svg_viewBox = (0, 0, 100, 100),
       svg_children = [Circle 50 50 40 ''black'' ''#444'' 1] \<rparr>
   \<and> map fill (svg_children (generateMoonPhaseSVG 0)) = [''black'']
   \<and> generateMoonPhaseSVG 0.5 =
     \<lparr> svg_width = 100, svg_height = 100, svg_viewBox = (0, 0, 100, 100),
       svg_children = [Circle 50 50 40 ''white'' ''#444'' 1] \<rparr>
   \<and> map fill (svg_children (generateMoonPhaseSVG 0.5)) = [''white'']"
  by (simp add: generateMoonPhaseSVG_def js_rem_def js_trunc_def Let_def)

section \<open>Visible planets\<close>

lemma planetEntry_Jupiter:
  "\<exists>p. planetEntry date jd result (''Jupiter'', period) = result @ [p]
       \<and> pl_name p = ''Jupiter'' \<and> pl_isVisible p"
  by (simp add: planetEntry_def planetSwitch_def Let_def)

lemma planetEntry_grows:
  "planetEntry date jd result e = result
   \<or> (\<exists>p. planetEntry date jd result e = result @ [p] \<and> pl_isVisible p)"
  by (cases e) (simp add: planetEntry_def Let_def split: prod.splits)

lemma addBackup_keeps: "set result \<subseteq> set (addBackup result bs)"
  by (induction result bs rule: addBackup.induct) (auto simp: Let_def)

lemma addBackup_visible:
  "list_all pl_isVisible result \<Longrightarrow> list_all pl_isVisible bs
   \<Longrightarrow> list_all pl_isVisible (addBackup result bs)"
  by (induction result bs rule: addBackup.induct) (auto simp: Let_def)

lemma addBackup_length: "length result < 2 \<Longrightarrow> 2 \<le> length (addBackup result backup)"
proof (cases result)
  case Nil
  then show ?thesis by (simp add: backup_def Let_def)
next
  case (Cons p ps)
  assume "length result < 2"
  with Cons have "ps = []" by simp
  with Cons show ?thesis by (simp add: backup_def Let_def)
qed

lemma foldl_planetEntry_visible:
  "list_all pl_isVisible acc \<Longrightarrow> list_all pl_isVisible (foldl (planetEntry date jd) acc es)"
proof (induction es arbitrary: acc)
  case Nil
  then show ?case by simp
next
  case (Cons e es)
  from planetEntry_grows[of date jd acc e] Cons.prems
  have "list_all pl_isVisible (planetEntry date jd acc e)" by auto
  from Cons.IH[OF this] show ?case by simp
qed

lemma foldl_planetEntry_keeps: "set acc \<subseteq> set (foldl (planetEntry date jd) acc es)"
proof (induction es arbitrary: acc)
  case Nil
  then show ?case by simp
next
  case (Cons e es)
  from planetEntry_grows[of date jd acc e]
  have "set acc \<subseteq> set (planetEntry date jd acc e)" by auto
  with Cons.IH[of "planetEntry date jd acc e"] show ?case by auto
qed

lemma foldl_planetEntry_Jupiter:
  "\<exists>p \<in> set (foldl (planetEntry date jd) [] periods). pl_name p = ''Jupiter'' \<and> pl_isVisible p"
proof -
  let ?f = "planetEntry date jd"
  let ?r3 = "foldl ?f [] [(''Mercury'', 88), (''Venus'', 225), (''Mars'', 687)]"
  obtain p where p: "?f ?r3 (''Jupiter'', 4333) = ?r3 @ [p]" "pl_name p = ''Jupiter''"
    "pl_isVisible p"
    using planetEntry_Jupiter[of date jd ?r3 4333] by blast
  have "foldl ?f [] periods = foldl ?f (?f ?r3 (''Jupiter'', 4333)) [(''Saturn'', 10759)]"
    by (simp add: periods_def)
  moreover have "p \<in> set (?f ?r3 (''Jupiter'', 4333))" using p(1) by simp
  ultimately have "p \<in> set (foldl ?f [] periods)"
    using foldl_planetEntry_keeps[of "?f ?r3 (''Jupiter'', 4333)" date jd "[(''Saturn'', 10759)]"]
    by auto
  with p(2,3) show ?thesis by blast
qed

lemma getVisiblePlanets_visible:
  "list_all pl_isVisible (getVisiblePlanets date latitude longitude)"
proof -
  have "list_all pl_isVisible (foldl (planetEntry date (getJulianDay date)) [] periods)"
    by (rule foldl_planetEntry_visible) simp
  moreover have "list_all pl_isVisible backup" by (simp add: backup_def)
  ultimately show ?thesis
    by (simp add: getVisiblePlanets_def Let_def addBackup_visible)
qed

text \<open>
  C4. For every date, latitude and longitude, at least two entries of the list returned
  by \<open>getVisiblePlanets\<close> have \<open>isVisible\<close> set: every entry of the list is visible,
  and when the planets' loop leaves fewer than two, the backup loop appends Venus and
  Jupiter, skipping a name already present, until there are two.
\<close>

theorem getVisiblePlanets_two_visible:
  "2 \<le> length (filter pl_isVisible (getVisiblePlanets date latitude longitude))"
proof -
  let ?r = "foldl (planetEntry date (getJulianDay date)) [] periods"
  have "filter pl_isVisible (getVisiblePlanets date latitude longitude)
        = getVisiblePlanets date latitude longitude"
    using getVisiblePlanets_visible[of date latitude longitude]
    by (simp add: list_all_iff)
  moreover have "2 \<le> length (getVisiblePlanets date latitude longitude)"
  proof (cases "length ?r < 2")
    case True
    with addBackup_length[OF True] show ?thesis by (simp add: getVisiblePlanets_def Let_def)
  next
    case False
    then show ?thesis by (simp add: getVisiblePlanets_def Let_def)
  qed
  ultimately show ?thesis by simp
qed

text \<open>
  C10. For every date, latitude and longitude, the list returned by
  \<open>getVisiblePlanets\<close> has an entry named Jupiter with \<open>isVisible\<close> set. Every branch of
  Jupiter's case sets it visible at every orbital phase; the perturbation by the date
  number modulo 11 exempts Jupiter, so the loop's step for Jupiter appends a visible
  entry named Jupiter whatever the date; and only visible planets are in the list.
\<close>

theorem getVisiblePlanets_Jupiter:
  "(\<exists>p \<in> set (getVisiblePlanets date latitude longitude).
      pl_name p = ''Jupiter'' \<and> pl_isVisible p)
   \<and> fst (snd (planetSwitch ''Jupiter'' phase))
   \<and> (\<exists>p. planetEntry date jd result (''Jupiter'', period) = result @ [p]
          \<and> pl_name p = ''Jupiter'' \<and> pl_isVisible p)
   \<and> list_all pl_isVisible (getVisiblePlanets date latitude longitude)"
proof -
  let ?r = "foldl (planetEntry date (getJulianDay date)) [] periods"
  obtain p where p: "p \<in> set ?r" "pl_name p = ''Jupiter''" "pl_isVisible p"
    using foldl_planetEntry_Jupiter[of date "getJulianDay date"] by blast
  have "set ?r \<subseteq> set (getVisiblePlanets date latitude longitude)"
    using addBackup_keeps[of ?r backup] by (simp add: getVisiblePlanets_def Let_def)
  with p have "\<exists>p \<in> set (getVisiblePlanets date latitude longitude).
      pl_name p = ''Jupiter'' \<and> pl_isVisible p" by blast
  moreover have "fst (snd (planetSwitch ''Jupiter'' phase))"
    by (simp add: planetSwitch_def Let_def)
  ultimately show ?thesis
    using getVisiblePlanets_visible[of date latitude longitude]
      planetEntry_Jupiter[of date jd result period]
    by blast
qed

section \<open>Visible constellations\<close>

lemma js_irem_nonneg:
  assumes "0 \<le> a" and "0 < b"
  shows "js_irem a b = a mod b"
proof -
  have "0 \<le> real_of_int a / real_of_int b" using assms by simp
  then have "js_trunc (real_of_int a / real_of_int b) = a div b"
    by (simp add: js_trunc_def floor_divide_of_int_eq)
  then show ?thesis by (simp add: js_irem_def minus_mult_div_eq_mod)
qed

lemma padCommon_length_ge:
  assumes "distinct cs"
  shows "min 5 (length r + length (filter (\<lambda>c. Some c \<notin> set r) cs)) \<le> length (padCommon r cs)"
  using assms
proof (induction cs arbitrary: r)
  case Nil
  then show ?case by simp
next
  case (Cons c cs)
  then have d: "distinct cs" and c: "c \<notin> set cs" by simp_all
  show ?case
  proof (cases "Some c \<in> set r")
    case True
    with Cons.IH[OF d, of r] show ?thesis by simp
  next
    case False
    have same: "filter (\<lambda>x. Some x \<notin> set (r @ [Some c])) cs = filter (\<lambda>x. Some x \<notin> set r) cs"
      using c by (intro filter_cong) auto
    from Cons.IH[OF d, of "r @ [Some c]"] same False show ?thesis
      by (simp add: Let_def)
  qed
qed

lemma padCommon_defined:
  "list_all (\<lambda>x. x \<noteq> None) r \<Longrightarrow> list_all (\<lambda>x. x \<noteq> None) (padCommon r cs)"
  by (induction r cs rule: padCommon.induct) (auto simp: Let_def)

lemma common_missing:
  assumes "length r \<le> 3"
  shows "2 \<le> length (filter (\<lambda>c. Some c \<notin> set r) common)"
proof -
  let ?in = "filter (\<lambda>c. Some c \<in> set r) common"
  have dc: "distinct common" by (simp add: common_def)
  have "distinct ?in" using dc by (rule distinct_filter)
  then have "length ?in = card (set ?in)" by (rule distinct_card[symmetric])
  also have "\<dots> = card (Some ` set ?in)" by (simp add: card_image)
  also have "\<dots> \<le> card (set r)" by (rule card_mono) auto
  also have "\<dots> \<le> length r" by (rule card_length)
  finally have "length ?in \<le> 3" using assms by simp
  moreover have "length ?in + length (filter (\<lambda>c. Some c \<notin> set r) common) = length common"
    using sum_length_filter_compl[of "\<lambda>c. Some c \<in> set r" common] by simp
  moreover have "length common = 5" by (simp add: common_def)
  ultimately show ?thesis by linarith
qed



text \<open>
  The part of the function after the seasonal selection, lines 290-318, for any seasonal
  list \<open>vs\<close> and any two circumpolar entries.
\<close>

lemma assembled_length:
  assumes "length vs \<le> 5"
  shows "4 \<le> length (take 5
      (if length (vs @ (if length vs < 4 then [c1] @ [c2] else [c1])) < 4
       then padCommon (vs @ (if length vs < 4 then [c1] @ [c2] else [c1])) common
       else vs @ (if length vs < 4 then [c1] @ [c2] else [c1])))"
proof (cases "length vs < 2")
  case True
  let ?r = "vs @ [c1] @ [c2]"
  have r3: "length ?r \<le> 3" using True by simp
  have "distinct common" by (simp add: common_def)
  from padCommon_length_ge[OF this, of ?r] common_missing[OF r3]
  have "4 \<le> length (padCommon ?r common)" by simp
  moreover have "length vs < 4" and "length ?r < 4" using True by simp_all
  ultimately show ?thesis by (simp only: if_True length_take)
next
  case False
  then have "\<not> length (vs @ (if length vs < 4 then [c1] @ [c2] else [c1])) < 4"
    by simp
  then show ?thesis using assms False by (simp only: if_False length_take)
qed

lemma assembled_defined:
  assumes "list_all (\<lambda>x. x \<noteq> None) vs" and "c1 \<noteq> None" and "c2 \<noteq> None"
  shows "list_all (\<lambda>x. x \<noteq> None) (take 5
      (if length (vs @ (if length vs < 4 then [c1] @ [c2] else [c1])) < 4
       then padCommon (vs @ (if length vs < 4 then [c1] @ [c2] else [c1])) common
       else vs @ (if length vs < 4 then [c1] @ [c2] else [c1])))"
proof -
  let ?r = "vs @ (if length vs < 4 then [c1] @ [c2] else [c1])"
  have r: "list_all (\<lambda>x. x \<noteq> None) ?r"
    using assms by (cases "length vs < 4") simp_all
  have "list_all (\<lambda>x. x \<noteq> None) (if length ?r < 4 then padCommon ?r common else ?r)"
  proof (cases "length ?r < 4")
    case True
    from padCommon_defined[OF r, of common] True show ?thesis by (simp only: if_True)
  next
    case False
    with r show ?thesis by (simp only: if_False)
  qed
  moreover have "set (take 5 (if length ?r < 4 then padCommon ?r common else ?r))
      \<subseteq> set (if length ?r < 4 then padCommon ?r common else ?r)"
    by (rule set_take_subset)
  ultimately show ?thesis
    unfolding list_all_iff by blast
qed

lemma getVisibleConstellations_length:
  "4 \<le> length (getVisibleConstellations date latitude longitude)
   \<and> length (getVisibleConstellations date latitude longitude) \<le> 5"
proof -
  have "4 \<le> length (getVisibleConstellations date latitude longitude)"
    unfolding getVisibleConstellations_def Let_def
    by (rule assembled_length) simp
  moreover have "length (getVisibleConstellations date latitude longitude) \<le> 5"
    unfolding getVisibleConstellations_def Let_def by simp
  ultimately show ?thesis by simp
qed

lemma js_nth_circumpolar:
  assumes "0 \<le> n"
  shows "js_nth (if isNorthernHemisphere then circumNorth else circumSouth)
           (js_irem n (int (length (if isNorthernHemisphere then circumNorth else circumSouth))))
         \<noteq> None"
proof -
  have l: "int (length (if isNorthernHemisphere then circumNorth else circumSouth)) = 5"
    by (simp add: circumNorth_def circumSouth_def)
  have "js_irem n 5 = n mod 5" using assms by (simp add: js_irem_nonneg)
  moreover have "0 \<le> n mod 5" and "n mod 5 < 5" by simp_all
  ultimately show ?thesis unfolding l js_nth_def
    by (simp add: circumNorth_def circumSouth_def)
qed

lemma getVisibleConstellations_defined:
  assumes "0 \<le> getDate date + getMonth date * 100 + getFullYear date * 10000"
  shows "list_all (\<lambda>x. x \<noteq> None) (getVisibleConstellations date latitude longitude)"
  unfolding getVisibleConstellations_def Let_def
proof (rule assembled_defined)
  show "list_all (\<lambda>x. x \<noteq> None)
     (map (\<lambda>c. Some (fst c))
       (take 5 (sort_key (\<lambda>c. hourDiff (snd c) (getLocalSiderealTime date longitude / 15))
         (filter (\<lambda>c. hourDiff (snd c) (getLocalSiderealTime date longitude / 15) < 6)
           (constellationsBySeason (seasonOf (getMonth date) (getDate date) (0 \<le> latitude)))))))"
    by (simp add: list_all_iff)
  show "js_nth (if 0 \<le> latitude then circumNorth else circumSouth)
     (js_irem (getDate date + getMonth date * 100 + getFullYear date * 10000)
       (int (length (if 0 \<le> latitude then circumNorth else circumSouth)))) \<noteq> None"
    using assms by (rule js_nth_circumpolar)
  show "js_nth (if 0 \<le> latitude then circumNorth else circumSouth)
     (js_irem (getDate date + getMonth date * 100 + getFullYear date * 10000 + 2)
       (int (length (if 0 \<le> latitude then circumNorth else circumSouth)))) \<noteq> None"
    using assms by (intro js_nth_circumpolar) simp
qed

text \<open>
  C5. For every date with a non-negative year (the dates \<^verbatim>\<open>YYYY-MM-DD\<close> of the
  interface; month and day of a \<^verbatim>\<open>Date\<close> are never negative), every latitude and
  every longitude, \<open>getVisibleConstellations\<close> returns at most 5 and at least 4
  entries, and every entry is a name. The static tables always supply the four names:
  when fewer than 4 are selected the padding loop runs up to 5.
\<close>

theorem getVisibleConstellations_count:
  assumes "0 \<le> getFullYear date" and "0 \<le> getMonth date" and "0 \<le> getDate date"
  shows "length (getVisibleConstellations date latitude longitude) \<le> 5
     \<and> 4 \<le> length (getVisibleConstellations date latitude longitude)
     \<and> list_all (\<lambda>x. x \<noteq> None) (getVisibleConstellations date latitude longitude)"
proof -
  from assms have "0 \<le> getDate date + getMonth date * 100 + getFullYear date * 10000"
    by simp
  from getVisibleConstellations_defined[OF this, of latitude longitude]
    getVisibleConstellations_length[of date latitude longitude]
  show ?thesis by simp
qed

theorem getVisibleConstellations_count_witness:
  "0 \<le> getFullYear (Date_of 0 945820800000) \<and> 0 \<le> getMonth (Date_of 0 945820800000)
   \<and> 0 \<le> getDate (Date_of 0 945820800000)
   \<and> length (getVisibleConstellations (Date_of 0 945820800000) 40.7128 (- 74.0060)) \<le> 5
   \<and> 4 \<le> length (getVisibleConstellations (Date_of 0 945820800000) 40.7128 (- 74.0060))
   \<and> list_all (\<lambda>x. x \<noteq> None)
        (getVisibleConstellations (Date_of 0 945820800000) 40.7128 (- 74.0060))"
proof -
  have h: "0 \<le> getFullYear (Date_of 0 945820800000)"
    "0 \<le> getMonth (Date_of 0 945820800000)"
    "0 \<le> getDate (Date_of 0 945820800000)"
    by (simp_all add: date_19991222)
  from getVisibleConstellations_count[OF h, of "40.7128" "- 74.0060"] h
  show ?thesis by blast
qed

subsection \<open>A date with a negative year\<close>

text \<open>
  The hypothesis on the year is used. A \<^verbatim>\<open>Date\<close> with a negative year cannot come
  from the route handler, which builds the date from the three parts of
  \<^verbatim>\<open>YYYY-MM-DD\<close>, but the exported function accepts it. For
  -000001-01-01T00:00:00Z on a host in UTC, seen from Tokyo, the date number is
  negative and so are both remainders by 5: the two circumpolar entries read
  \<^verbatim>\<open>undefined\<close>. No winter constellation is within 6 hours of the sidereal time
  (15.96 h), so the array returned holds 3 names and 2 \<^verbatim>\<open>undefined\<close>.
\<close>

lemma date_bc:
  "Date_of 0 (- 62198755200000) =
    \<lparr> getFullYear = - 1, getMonth = 0, getDate = 1, getUTCHours = 0,
      getUTCMinutes = 0, getUTCSeconds = 0 \<rparr>"
  by code_simp

lemma localSiderealTime_bc:
  "getLocalSiderealTime (Date_of 0 (- 62198755200000)) 139.6503
   = 14449760870947190241614585771 / 60359248428255000000000000"
  by code_simp

lemma localSiderealHours_bc:
  "15.9 < getLocalSiderealTime (Date_of 0 (- 62198755200000)) 139.6503 / 15"
  "getLocalSiderealTime (Date_of 0 (- 62198755200000)) 139.6503 / 15 < 16"
  unfolding localSiderealTime_bc by simp_all

lemma circumpolar_index_bc:
  "js_irem (1 + 0 * 100 + (- 1) * 10000) 5 = - 4"
  "js_irem (1 + 0 * 100 + (- 1) * 10000 + 2) 5 = - 2"
  by code_simp+

lemma getVisibleConstellations_negative_year:
  "getVisibleConstellations (Date_of 0 (- 62198755200000)) 35.6762 139.6503
     = [None, None, Some ''Orion'', Some ''Ursa Major'', Some ''Cassiopeia'']"
  unfolding getVisibleConstellations_def localSiderealTime_bc by code_simp

section \<open>Julian Day and wall-clock time\<close>

lemma floor_div_numeral:
  "\<lfloor>real_of_int k / 12\<rfloor> = k div 12"
  "\<lfloor>real_of_int k / 5\<rfloor> = k div 5"
  "\<lfloor>real_of_int k / 4\<rfloor> = k div 4"
  "\<lfloor>real_of_int k / 100\<rfloor> = k div 100"
  "\<lfloor>real_of_int k / 400\<rfloor> = k div 400"
  using floor_divide_of_int_eq[of k 12, where ?'a = real]
    floor_divide_of_int_eq[of k 5, where ?'a = real]
    floor_divide_of_int_eq[of k 4, where ?'a = real]
    floor_divide_of_int_eq[of k 100, where ?'a = real]
    floor_divide_of_int_eq[of k 400, where ?'a = real]
  by simp_all

lemma getJulianDay_dayNumber:
  "getJulianDay date =
     real_of_int (dayNumber (getFullYear date) (getMonth date + 1) (getDate date))
     + ((real_of_int (getUTCHours date) - 12) / 24 + real_of_int (getUTCMinutes date) / 1440
        + real_of_int (getUTCSeconds date) / 86400)"
  unfolding getJulianDay_def dayNumber_def Let_def floor_div_numeral by simp

lemma capped_remainder:
  fixes x b k :: int
  assumes "0 < b" and "0 \<le> k" and "0 \<le> x" and "x \<le> (k + 1) * b"
  shows "0 \<le> x - b * min (x div b) k" and "x - b * min (x div b) k \<le> b"
proof -
  have m: "x = b * (x div b) + x mod b" by simp
  have r: "0 \<le> x mod b" "x mod b < b" using assms(1) by simp_all
  have q: "0 \<le> x div b" using assms(1,3) by (simp add: pos_imp_zdiv_nonneg_iff)
  show "0 \<le> x - b * min (x div b) k"
  proof (cases "x div b \<le> k")
    case True
    then have "x - b * min (x div b) k = x mod b" by (simp add: min_def minus_mult_div_eq_mod)
    with r show ?thesis by simp
  next
    case False
    then have "b * k \<le> b * (x div b)" using assms(1) by simp
    moreover have "b * (x div b) \<le> x" using m r(1) by linarith
    moreover have "min (x div b) k = k" using False by (simp add: min_def)
    ultimately show ?thesis by simp
  qed
  show "x - b * min (x div b) k \<le> b"
  proof (cases "x div b \<le> k")
    case True
    then have "x - b * min (x div b) k = x mod b" by (simp add: min_def minus_mult_div_eq_mod)
    with r show ?thesis by simp
  next
    case False
    then have "min (x div b) k = k" by (simp add: min_def)
    with assms(4) show ?thesis by (simp add: algebra_simps)
  qed
qed

lemma div_bounds:
  fixes x b :: int
  assumes "0 < b" and "0 \<le> x" and "x \<le> n"
  shows "0 \<le> x div b" and "x div b \<le> n div b"
  using assms by (simp_all add: pos_imp_zdiv_nonneg_iff zdiv_mono1)

lemma leap_correction:
  fixes mp :: int
  assumes "0 \<le> mp" "mp \<le> 11"
  shows "(14 - (if mp < 10 then mp + 3 else mp - 9)) div 12 = (if (if mp < 10 then mp + 3 else mp - 9) \<le> 2 then 1 else 0)"
proof (cases "mp < 10")
  case True
  with assms have "0 \<le> 11 - mp" "11 - mp < 12" by simp_all
  then have "(11 - mp) div 12 = 0" by (rule div_pos_pos_trivial)
  with True assms show ?thesis by simp
next
  case False
  with assms have "mp = 10 \<or> mp = 11" by linarith
  with False show ?thesis by auto
qed

lemma year_div_4:
  fixes E c q yq :: int
  assumes "0 \<le> yq" "yq \<le> 3"
  shows "(400 * E + (100 * c + 4 * q + yq)) div 4 = 100 * E + 25 * c + q"
proof -
  have "400 * E + (100 * c + 4 * q + yq) = yq + (100 * E + 25 * c + q) * 4" by simp
  moreover have "yq div 4 = 0" using assms by simp
  ultimately show ?thesis by (simp only: div_mult_self1)
qed

lemma year_div_100:
  fixes E c q yq :: int
  assumes "0 \<le> yq" "yq \<le> 3" "0 \<le> q" "q \<le> 24"
  shows "(400 * E + (100 * c + 4 * q + yq)) div 100 = 4 * E + c"
proof -
  have "400 * E + (100 * c + 4 * q + yq) = (4 * q + yq) + (4 * E + c) * 100" by simp
  moreover have "(4 * q + yq) div 100 = 0" using assms by simp
  ultimately show ?thesis by (simp only: div_mult_self1)
qed

lemma year_div_400:
  fixes E yoe :: int
  assumes "0 \<le> yoe" "yoe \<le> 399"
  shows "(400 * E + yoe) div 400 = E"
proof -
  have "400 * E + yoe = yoe + E * 400" by simp
  moreover have "yoe div 400 = 0" using assms by simp
  ultimately show ?thesis by (simp only: div_mult_self1)
qed


lemma day_of_month_range:
  fixes doy :: int
  shows "1 \<le> doy - (153 * ((5 * doy + 2) div 153) + 2) div 5 + 1"
    and "doy - (153 * ((5 * doy + 2) div 153) + 2) div 5 + 1 \<le> 31"
proof -
  define mp where "mp = (5 * doy + 2) div 153"
  have a: "153 * mp \<le> 5 * doy + 2" "5 * doy + 2 < 153 * mp + 153"
    unfolding mp_def by presburger+
  define e where "e = (153 * mp + 2) div 5"
  have b: "5 * e \<le> 153 * mp + 2" "153 * mp + 2 < 5 * e + 5"
    unfolding e_def by presburger+
  from a b show "1 \<le> doy - (153 * ((5 * doy + 2) div 153) + 2) div 5 + 1"
    unfolding mp_def[symmetric] e_def[symmetric] by linarith
  from a b show "doy - (153 * ((5 * doy + 2) div 153) + 2) div 5 + 1 \<le> 31"
    unfolding mp_def[symmetric] e_def[symmetric] by linarith
qed

text \<open>
  The calendar date of a day number has a month from 0 to 11 and a day from 1 to 31,
  and the day number the source computes for it (lines 76-81) is the day number it
  came from, counted from the Julian epoch: day 0 of the host, 1970-01-01, is Julian
  Day Number 2440588.
\<close>

lemma dayNumber_civil:
  assumes "civil_from_days n = (y, m, d)"
  shows "dayNumber y (m + 1) d = n + 2440588"
    and "0 \<le> m" and "m \<le> 11" and "1 \<le> d" and "d \<le> 31"
proof -
  define z where "z = n + 719468"
  define era where "era = z div 146097"
  define doe where "doe = z mod 146097"
  define c where "c = min (doe div 36524) 3"
  define doc where "doc = doe - 36524 * c"
  define q where "q = doc div 1461"
  define doq where "doq = doc mod 1461"
  define yq where "yq = min (doq div 365) 3"
  define doy where "doy = doq - 365 * yq"
  define mp where "mp = (5 * doy + 2) div 153"
  define yoe where "yoe = 100 * c + 4 * q + yq"
  define m' where "m' = (if mp < 10 then mp + 3 else mp - 9)"
  have doe: "0 \<le> doe" "doe < 146097" by (simp_all add: doe_def)
  have z: "z = 146097 * era + doe" by (simp add: era_def doe_def)
  have c: "0 \<le> c" "c \<le> 3" using doe(1) by (simp_all add: c_def pos_imp_zdiv_nonneg_iff)
  have doc: "0 \<le> doc" "doc \<le> 36524"
    using capped_remainder[of 36524 3 doe] doe unfolding doc_def c_def by simp_all
  have q: "0 \<le> q" "q \<le> 24"
    using div_bounds[of 1461 doc 36524] doc unfolding q_def by simp_all
  have doq: "0 \<le> doq" "doq < 1461" "doc = 1461 * q + doq" by (simp_all add: doq_def q_def)
  have yq: "0 \<le> yq" "yq \<le> 3" using doq(1) by (simp_all add: yq_def pos_imp_zdiv_nonneg_iff)
  have doy: "0 \<le> doy" "doy \<le> 365"
    using capped_remainder[of 365 3 doq] doq(1,2) unfolding doy_def yq_def by simp_all
  have mp: "0 \<le> mp" "mp \<le> 11"
    using div_bounds[of 153 "5 * doy + 2" 1827] doy unfolding mp_def by simp_all
  have yoe: "0 \<le> yoe" "yoe \<le> 399" using c q yq by (simp_all add: yoe_def)
  have sum: "36524 * c + 1461 * q + 365 * yq + doy = doe"
    using doq(3) by (simp add: doy_def doc_def)
  have civil: "civil_from_days n =
      (400 * era + 100 * c + 4 * q + yq + (if m' \<le> 2 then 1 else 0), m' - 1,
       doy - (153 * mp + 2) div 5 + 1)"
    unfolding civil_from_days_def Let_def m'_def mp_def doy_def yq_def doq_def q_def
      doc_def c_def doe_def era_def z_def by (rule refl)
  from assms civil have y: "y = 400 * era + 100 * c + 4 * q + yq + (if m' \<le> 2 then 1 else 0)"
    and m: "m + 1 = m'"
    and d: "d = doy - (153 * mp + 2) div 5 + 1"
    by simp_all
  define Y where "Y = 400 * (era + 12) + yoe"
  have a: "(14 - m') div 12 = (if m' \<le> 2 then 1 else 0)"
    unfolding m'_def using mp by (rule leap_correction)
  have Ya: "y + 4800 - (14 - m') div 12 = Y"
    unfolding a y Y_def yoe_def by simp
  have Ma: "m' + 12 * ((14 - m') div 12) - 3 = mp"
    unfolding a unfolding m'_def using mp by simp
  have Y4: "Y div 4 = 100 * (era + 12) + 25 * c + q"
    unfolding Y_def yoe_def using yq by (rule year_div_4)
  have Y100: "Y div 100 = 4 * (era + 12) + c"
    unfolding Y_def yoe_def using yq q by (rule year_div_100)
  have Y400: "Y div 400 = era + 12"
    unfolding Y_def using yoe by (rule year_div_400)
  have "dayNumber y (m + 1) d
      = d + (153 * mp + 2) div 5 + 365 * Y + Y div 4 - Y div 100 + Y div 400 - 32045"
    unfolding dayNumber_def Let_def m Ya Ma by simp
  also have "\<dots> = doy + 1 + 365 * Y + Y div 4 - Y div 100 + Y div 400 - 32045"
    unfolding d by simp
  also have "\<dots> = 146097 * era + (36524 * c + 1461 * q + 365 * yq + doy) + 1721120"
    unfolding Y4 Y100 Y400 unfolding Y_def yoe_def by simp
  also have "\<dots> = z + 1721120" unfolding sum z by simp
  finally show "dayNumber y (m + 1) d = n + 2440588" by (simp add: z_def)
  from m mp show "0 \<le> m" and "m \<le> 11"
    unfolding m'_def by (simp_all split: if_splits)
  from day_of_month_range[of doy] show "1 \<le> d" and "d \<le> 31"
    unfolding d mp_def by simp_all
qed

lemma Date_of_examples:
  "Date_of 0 0 =
    \<lparr> getFullYear = 1970, getMonth = 0, getDate = 1, getUTCHours = 0,
      getUTCMinutes = 0, getUTCSeconds = 0 \<rparr>"
  "Date_of 0 (- 1) =
    \<lparr> getFullYear = 1969, getMonth = 11, getDate = 31, getUTCHours = 23,
      getUTCMinutes = 59, getUTCSeconds = 59 \<rparr>"
  "Date_of 0 951782400000 =
    \<lparr> getFullYear = 2000, getMonth = 1, getDate = 29, getUTCHours = 0,
      getUTCMinutes = 0, getUTCSeconds = 0 \<rparr>"
  "Date_of (- 300) 946771199000 =
    \<lparr> getFullYear = 2000, getMonth = 0, getDate = 1, getUTCHours = 23,
      getUTCMinutes = 59, getUTCSeconds = 59 \<rparr>"
  "Date_of (- 300) 946771200000 =
    \<lparr> getFullYear = 2000, getMonth = 0, getDate = 1, getUTCHours = 0,
      getUTCMinutes = 0, getUTCSeconds = 0 \<rparr>"
  by code_simp+


lemma seconds_split:
  fixes S :: int
  shows "86400 * (S div 86400) + 3600 * ((S div 3600) mod 24) + 60 * ((S div 60) mod 60)
         + S mod 60 = S"
proof -
  have a: "S = 60 * (S div 60) + S mod 60" by simp
  have "(S div 60) div 60 = S div 3600"
    using zdiv_zmult2_eq[of 60 S 60] by simp
  then have b: "S div 60 = 60 * (S div 3600) + (S div 60) mod 60"
    using mult_div_mod_eq[of 60 "S div 60"] by simp
  have "(S div 3600) div 24 = S div 86400"
    using zdiv_zmult2_eq[of 24 S 3600] by simp
  then have c: "S div 3600 = 24 * (S div 86400) + (S div 3600) mod 24"
    using mult_div_mod_eq[of 24 "S div 3600"] by simp
  from a b c show ?thesis by linarith
qed

lemma div_milliseconds:
  fixes t :: int
  shows "t div 86400000 = (t div 1000) div 86400"
    and "t div 3600000 = (t div 1000) div 3600"
    and "t div 60000 = (t div 1000) div 60"
  using zdiv_zmult2_eq[of 86400 t 1000] zdiv_zmult2_eq[of 3600 t 1000]
    zdiv_zmult2_eq[of 60 t 1000]
  by simp_all

text \<open>
  On a host in UTC the function returns the Julian Date of the instant, cut to whole
  seconds: the number of seconds since the epoch over 86400, plus 2440587.5.
\<close>

lemma getJulianDay_utc:
  "getJulianDay (Date_of 0 t) = real_of_int (t div 1000) / 86400 + 2440587.5"
proof -
  define S where "S = t div 1000"
  obtain y m d where civil: "civil_from_days (S div 86400) = (y, m, d)"
    by (cases "civil_from_days (S div 86400)") auto
  have date: "Date_of 0 t =
      \<lparr> getFullYear = y, getMonth = m, getDate = d, getUTCHours = (S div 3600) mod 24,
        getUTCMinutes = (S div 60) mod 60, getUTCSeconds = S mod 60 \<rparr>"
    using civil unfolding Date_of_def S_def by (simp add: div_milliseconds)
  have "real_of_int (86400 * (S div 86400) + 3600 * ((S div 3600) mod 24)
          + 60 * ((S div 60) mod 60) + S mod 60) = real_of_int S"
    by (simp only: seconds_split)
  then have split: "86400 * real_of_int (S div 86400) + 3600 * real_of_int ((S div 3600) mod 24)
          + 60 * real_of_int ((S div 60) mod 60) + real_of_int (S mod 60) = real_of_int S"
    by simp
  have "getJulianDay (Date_of 0 t) =
      real_of_int (S div 86400 + 2440588)
      + ((real_of_int ((S div 3600) mod 24) - 12) / 24 + real_of_int ((S div 60) mod 60) / 1440
         + real_of_int (S mod 60) / 86400)"
    unfolding getJulianDay_dayNumber date using dayNumber_civil(1)[OF civil] by simp
  also have "\<dots> = real_of_int S / 86400 + 2440587.5"
    using split by (simp add: field_simps)
  finally show ?thesis by (simp add: S_def)
qed

text \<open>
  On a host in UTC the Julian Day does not decrease with time and increases strictly
  from one whole second to a later one.
\<close>

lemma getJulianDay_monotone_utc:
  "(t1 \<le> t2 \<longrightarrow> getJulianDay (Date_of 0 t1) \<le> getJulianDay (Date_of 0 t2))
   \<and> (t1 div 1000 < t2 div 1000
        \<longrightarrow> getJulianDay (Date_of 0 t1) < getJulianDay (Date_of 0 t2))"
proof (intro conjI impI)
  assume "t1 \<le> t2"
  then have "t1 div 1000 \<le> t2 div 1000" by (simp add: zdiv_mono1)
  then show "getJulianDay (Date_of 0 t1) \<le> getJulianDay (Date_of 0 t2)"
    unfolding getJulianDay_utc by (simp add: divide_right_mono)
next
  assume "t1 div 1000 < t2 div 1000"
  then show "getJulianDay (Date_of 0 t1) < getJulianDay (Date_of 0 t2)"
    unfolding getJulianDay_utc by (simp add: divide_strict_right_mono)
qed

text \<open>
  On every host, the value lies within half a day of the day number of the local
  calendar date, so it increases strictly from one local day to a later one.
\<close>

lemma getJulianDay_within_day:
  "real_of_int ((t + tz * 60000) div 86400000) + 2440588 - 1 / 2 \<le> getJulianDay (Date_of tz t)"
  "getJulianDay (Date_of tz t) < real_of_int ((t + tz * 60000) div 86400000) + 2440588 + 1 / 2"
proof -
  define n where "n = (t + tz * 60000) div 86400000"
  define h where "h = (t div 3600000) mod 24"
  define mi where "mi = (t div 60000) mod 60"
  define s where "s = (t div 1000) mod 60"
  obtain y m d where civil: "civil_from_days n = (y, m, d)"
    by (cases "civil_from_days n") auto
  have date: "Date_of tz t =
      \<lparr> getFullYear = y, getMonth = m, getDate = d, getUTCHours = h,
        getUTCMinutes = mi, getUTCSeconds = s \<rparr>"
    using civil unfolding Date_of_def n_def h_def mi_def s_def by simp
  have jd: "getJulianDay (Date_of tz t) =
      real_of_int (n + 2440588)
      + ((real_of_int h - 12) / 24 + real_of_int mi / 1440 + real_of_int s / 86400)"
    unfolding getJulianDay_dayNumber date using dayNumber_civil(1)[OF civil] by simp
  have "0 \<le> h" "h \<le> 23" "0 \<le> mi" "mi \<le> 59" "0 \<le> s" "s \<le> 59"
    unfolding h_def mi_def s_def by simp_all
  then have b: "0 \<le> real_of_int h" "real_of_int h \<le> 23" "0 \<le> real_of_int mi"
    "real_of_int mi \<le> 59" "0 \<le> real_of_int s" "real_of_int s \<le> 59"
    by simp_all
  from b show "real_of_int ((t + tz * 60000) div 86400000) + 2440588 - 1 / 2
      \<le> getJulianDay (Date_of tz t)"
    unfolding jd n_def[symmetric] by (simp add: field_simps)
  from b show "getJulianDay (Date_of tz t)
      < real_of_int ((t + tz * 60000) div 86400000) + 2440588 + 1 / 2"
    unfolding jd n_def[symmetric] by (simp add: field_simps)
qed

lemma getJulianDay_monotone_local_days:
  assumes "(t1 + tz * 60000) div 86400000 < (t2 + tz * 60000) div 86400000"
  shows "getJulianDay (Date_of tz t1) < getJulianDay (Date_of tz t2)"
proof -
  let ?n1 = "(t1 + tz * 60000) div 86400000"
  let ?n2 = "(t2 + tz * 60000) div 86400000"
  from assms have "?n1 + 1 \<le> ?n2" by simp
  then have "real_of_int ?n1 + 1 \<le> real_of_int ?n2" by linarith
  with getJulianDay_within_day(2)[of tz t1] getJulianDay_within_day(1)[of t2 tz]
  show ?thesis by linarith
qed


end
